theory Spec2Isabelle
  imports Main "HOL-Library.Word" "HOL-Library.Char_ord" "HOL-Library.List_Lexorder"
begin

section \<open>JavaScript values\<close>

text \<open>
  The request body of \<^verbatim>\<open>/cache-request\<close> and the payloads kept in the key-value store are
  JSON values. An object is the list of its entries in insertion order; the keys of an
  object are pairwise distinct, as they are after \<^verbatim>\<open>JSON.parse\<close>. Numbers are integers here.
\<close>

datatype json =
    JNull
  | JBool bool
  | JNum int
  | JStr string
  | JArr "json list"
  | JObj "(string \<times> json) list"

text \<open>The conversion to a boolean that \<^verbatim>\<open>if (v)\<close> applies.\<close>

fun truthy :: "json \<Rightarrow> bool" where
  "truthy JNull = False"
| "truthy (JBool b) = b"
| "truthy (JNum n) = (n \<noteq> 0)"
| "truthy (JStr s) = (s \<noteq> [])"
| "truthy (JArr xs) = True"
| "truthy (JObj kvs) = True"

text \<open>
  The numbers of the range computation are doubles whose value is an integer, \<^verbatim>\<open>NaN\<close> or an
  infinity. \<open>Fin i\<close> is the double with the integer value \<open>i\<close>. Every integer up to
  \<open>2 ^ 53\<close> in magnitude is a double; a larger one is rounded to the nearest double, that
  is to 53 significant bits, a tie going to the even one, and becomes an infinity from
  \<open>2 ^ 1024\<close> on.
\<close>

datatype jsnum = NaN | Fin int | PosInf | NegInf

fun bit_length :: "nat \<Rightarrow> nat" where
  "bit_length n = (if n = 0 then 0 else Suc (bit_length (n div 2)))"

declare bit_length.simps [simp del]

definition round_mag :: "nat \<Rightarrow> nat" where
  "round_mag m =
     (if m \<le> 2 ^ 53 then m
      else
        (let sh = bit_length m - 53;
             q = m div 2 ^ sh;
             r = m mod 2 ^ sh;
             half = 2 ^ (sh - 1)
         in (if half < r \<or> (r = half \<and> odd q) then q + 1 else q) * 2 ^ sh))"

definition round_double :: "int \<Rightarrow> jsnum" where
  "round_double i =
     (let m = round_mag (nat \<bar>i\<bar>)
      in if 2 ^ 1024 \<le> m then (if i < 0 then NegInf else PosInf)
         else Fin (if i < 0 then - int m else int m))"

fun num_neg :: "jsnum \<Rightarrow> jsnum" where
  "num_neg NaN = NaN"
| "num_neg (Fin a) = Fin (- a)"
| "num_neg PosInf = NegInf"
| "num_neg NegInf = PosInf"

text \<open>The sum of two doubles is the exact sum, rounded.\<close>

fun num_add :: "jsnum \<Rightarrow> jsnum \<Rightarrow> jsnum" where
  "num_add (Fin a) (Fin b) = round_double (a + b)"
| "num_add NaN b = NaN"
| "num_add a NaN = NaN"
| "num_add PosInf NegInf = NaN"
| "num_add NegInf PosInf = NaN"
| "num_add PosInf b = PosInf"
| "num_add a PosInf = PosInf"
| "num_add NegInf b = NegInf"
| "num_add a NegInf = NegInf"

definition num_sub :: "jsnum \<Rightarrow> jsnum \<Rightarrow> jsnum" where
  "num_sub a b = num_add a (num_neg b)"

fun num_gt :: "jsnum \<Rightarrow> jsnum \<Rightarrow> bool" where
  "num_gt NaN b = False"
| "num_gt a NaN = False"
| "num_gt (Fin a) (Fin b) = (a > b)"
| "num_gt PosInf b = (b \<noteq> PosInf)"
| "num_gt a PosInf = False"
| "num_gt a NegInf = (a \<noteq> NegInf)"
| "num_gt NegInf b = False"

text \<open>\<^verbatim>\<open>a === b\<close> on numbers.\<close>

definition num_eq :: "jsnum \<Rightarrow> jsnum \<Rightarrow> bool" where
  "num_eq a b = (a \<noteq> NaN \<and> a = b)"

definition digit_char :: "nat \<Rightarrow> char" where
  "digit_char d = ''0123456789'' ! d"

fun nat_toString :: "nat \<Rightarrow> string" where
  "nat_toString n =
     (if n < 10 then [digit_char n] else nat_toString (n div 10) @ [digit_char (n mod 10)])"

declare nat_toString.simps [simp del]

definition int_toString :: "int \<Rightarrow> string" where
  "int_toString i = (if i < 0 then CHR ''-'' # nat_toString (nat (- i)) else nat_toString (nat i))"

text \<open>
  The conversion of a number to a string, as a template literal and \<^verbatim>\<open>toString\<close> do it: all
  the decimal digits of an integer up to \<open>2 ^ 53\<close> in magnitude. Beyond, the engine prints
  the shortest digits that denote the double, in exponent notation from \<open>10 ^ 21\<close> on;
  that notation is the parameter \<open>large\<close>.
\<close>

fun num_toString :: "(int \<Rightarrow> string) \<Rightarrow> jsnum \<Rightarrow> string" where
  "num_toString large NaN = ''NaN''"
| "num_toString large PosInf = ''Infinity''"
| "num_toString large NegInf = ''-Infinity''"
| "num_toString large (Fin i) = (if \<bar>i\<bar> \<le> 2 ^ 53 then int_toString i else large i)"

section \<open>Parsing the Range header\<close>

text \<open>\<^verbatim>\<open>range.replace(/bytes=/, "")\<close>: the first occurrence of the pattern is removed.\<close>

fun replace_bytes :: "string \<Rightarrow> string" where
  "replace_bytes [] = []"
| "replace_bytes (c # cs) =
     (if take 6 (c # cs) = ''bytes='' then drop 6 (c # cs) else c # replace_bytes cs)"

text \<open>\<^verbatim>\<open>s.split("-")\<close>: the pieces between the separators; never the empty list.\<close>

fun split :: "char \<Rightarrow> string \<Rightarrow> string list" where
  "split sep [] = [[]]"
| "split sep (c # cs) =
     (if c = sep then [] # split sep cs
      else (case split sep cs of [] \<Rightarrow> [[c]] | p # ps \<Rightarrow> (c # p) # ps))"

text \<open>
  \<^verbatim>\<open>const [first, second] = ...\<close>: the first two pieces; \<open>second\<close> is \<^verbatim>\<open>undefined\<close>
  (here \<open>None\<close>) when there is one piece only.
\<close>

definition range_parts :: "string \<Rightarrow> string \<times> string option" where
  "range_parts hdr =
     (case split (CHR ''-'') (replace_bytes hdr) of
        [] \<Rightarrow> ([], None)
      | [first] \<Rightarrow> (first, None)
      | first # second # rest \<Rightarrow> (first, Some second))"

text \<open>
  \<^verbatim>\<open>parseInt(s, 10)\<close>: leading white space is skipped, a sign is read, then the longest
  run of decimal digits; no digit gives \<^verbatim>\<open>NaN\<close>, and the value of the digits is rounded
  to a double. A header value is a byte string, so the white space characters are the ones
  below 256. \<open>leading_digits\<close> is the sign and the run of digits that \<^verbatim>\<open>parseInt\<close> reads.
  (Beyond twenty significant digits the language lets an engine read the later digits as
  zeros; the value is \<open>10 ^ 20\<close> or more either way.)
\<close>

definition is_space :: "char \<Rightarrow> bool" where
  "is_space c = (of_char c \<in> {9, 10, 11, 12, 13, 32, 160 :: nat})"

definition is_digit :: "char \<Rightarrow> bool" where
  "is_digit c = (of_char (CHR ''0'') \<le> (of_char c :: nat) \<and> (of_char c :: nat) \<le> of_char (CHR ''9''))"

definition digit_val :: "char \<Rightarrow> int" where
  "digit_val c = int (of_char c) - int (of_char (CHR ''0''))"

definition digits_val :: "string \<Rightarrow> int" where
  "digits_val ds = foldl (\<lambda>a c. 10 * a + digit_val c) 0 ds"

definition leading_digits :: "string \<Rightarrow> int \<times> string" where
  "leading_digits s =
     (let t = dropWhile is_space s;
          (sgn, u) = (case t of
                        [] \<Rightarrow> (1, t)
                      | c # r \<Rightarrow> if c = CHR ''-'' then (- 1, r)
                                 else if c = CHR ''+'' then (1, r) else (1, t))
      in (sgn, takeWhile is_digit u))"

definition parseInt :: "string \<Rightarrow> jsnum" where
  "parseInt s =
     (let (sgn, ds) = leading_digits s
      in if ds = [] then NaN else round_double (sgn * digits_val ds))"

definition maxChunk :: int where
  "maxChunk = 1024 * 1024"

text \<open>
  \<^verbatim>\<open>second ? parseInt(second, 10) : songSize - 1\<close>; the size of the file is a number
  too.
\<close>

definition initial_end :: "string option \<Rightarrow> int \<Rightarrow> jsnum" where
  "initial_end second songSize =
     (case second of
        None \<Rightarrow> num_sub (round_double songSize) (Fin 1)
      | Some s \<Rightarrow> if s \<noteq> [] then parseInt s else num_sub (round_double songSize) (Fin 1))"

text \<open>\<^verbatim>\<open>if (end - start + 1 > maxChunk) { end = start + maxChunk - 1; }\<close>\<close>

definition clamp_end :: "jsnum \<Rightarrow> jsnum \<Rightarrow> jsnum" where
  "clamp_end start end0 =
     (if num_gt (num_add (num_sub end0 start) (Fin 1)) (Fin maxChunk)
      then num_sub (num_add start (Fin maxChunk)) (Fin 1)
      else end0)"

text \<open>The values of \<open>start\<close> and \<open>end\<close> that the handler works with (its lines 209 to 216).\<close>

definition parseRange :: "string \<Rightarrow> int \<Rightarrow> jsnum \<times> jsnum" where
  "parseRange hdr songSize =
     (let (first, second) = range_parts hdr;
          start = parseInt first;
          end0 = initial_end second songSize
      in (start, clamp_end start end0))"

section \<open>The file store and the handler of \<^verbatim>\<open>GET /songs/:id\<close>\<close>

type_synonym byte = "8 word"

text \<open>
  What a handler can throw: the failure of the upstream request, the \<^verbatim>\<open>TypeError\<close> of a
  property read on \<^verbatim>\<open>null\<close>, the \<^verbatim>\<open>TypeError\<close> of the store for a value that is too
  large, the \<^verbatim>\<open>RangeError\<close> of a typed array whose length is negative or not an index,
  and the failure of a seek.
\<close>

datatype error = AxiodError | TypeError | ValueTooLarge | InvalidTypedArrayLength | SeekFailed

datatype seek_mode = SeekStart | SeekCurrent | SeekEnd

text \<open>
  The runtime the handler runs on. \<open>files\<close> maps the name of a song in the songs directory to
  its bytes; no file changes while a request is served. One call of \<^verbatim>\<open>file.read\<close> delivers
  at most \<open>read_limit\<close> bytes. The file system accepts the positions up to \<open>max_offset\<close>
  for a seek. What \<^verbatim>\<open>Deno.seek\<close> makes of an offset that is not a 64-bit integer
  (\<^verbatim>\<open>NaN\<close>, an infinity, a larger integer) is the runtime's business: \<open>convert_offset\<close> is
  the failure or the 64-bit offset it gives. \<open>large_toString\<close> is the engine's notation
  for the numbers beyond \<open>2 ^ 53\<close>.
\<close>

record runtime =
  files :: "string \<rightharpoonup> byte list"
  read_limit :: nat
  max_offset :: nat
  convert_offset :: "jsnum \<Rightarrow> error + int"
  large_toString :: "int \<Rightarrow> string"

datatype fs_event =
    Exists string
  | Stat string
  | ReadFile string
  | Open string
  | Seek jsnum seek_mode
  | Read nat
  | Close

datatype body = Bytes "byte list" | Text string

text \<open>
  The response as the handler leaves it: \<open>status\<close> is \<open>None\<close> when the handler did not
  set one, \<open>rtype\<close> is \<^verbatim>\<open>ctx.response.type\<close>.
\<close>

record response =
  status :: "nat option"
  headers :: "(string \<times> string) list"
  rtype :: "string option"
  body :: "body option"

text \<open>The choice of the seek mode (lines 225 to 232).\<close>

definition seek_mode_of :: "jsnum \<Rightarrow> jsnum \<Rightarrow> int \<Rightarrow> seek_mode" where
  "seek_mode_of start end' songSize =
     (if num_eq start (Fin 0) then SeekStart
      else if num_eq end' (num_sub (round_double songSize) (Fin 1)) then SeekEnd
      else SeekCurrent)"

text \<open>
  \<^verbatim>\<open>Deno.seek(rid, offset, whence)\<close> on a file of \<open>fsize\<close> bytes whose cursor is at \<open>pos\<close>:
  the new position, which may lie beyond the end of the file, but not before its start,
  not beyond what the file system accepts and not beyond a signed 64-bit integer.
\<close>

definition offset64 :: "runtime \<Rightarrow> jsnum \<Rightarrow> error + int" where
  "offset64 rt offset =
     (case offset of
        Fin n \<Rightarrow> if - (2 ^ 63) \<le> n \<and> n < 2 ^ 63 then Inr n else convert_offset rt offset
      | _ \<Rightarrow> convert_offset rt offset)"

definition Deno_seek :: "runtime \<Rightarrow> nat \<Rightarrow> nat \<Rightarrow> jsnum \<Rightarrow> seek_mode \<Rightarrow> error + nat" where
  "Deno_seek rt fsize pos offset whence =
     (case offset64 rt offset of
        Inl e \<Rightarrow> Inl e
      | Inr n \<Rightarrow>
          (let p = (case whence of
                      SeekStart \<Rightarrow> n
                    | SeekCurrent \<Rightarrow> int pos + n
                    | SeekEnd \<Rightarrow> int fsize + n)
           in if p < 0 \<or> int (max_offset rt) < p \<or> 2 ^ 63 \<le> p then Inl SeekFailed
              else Inr (nat p)))"

text \<open>
  \<^verbatim>\<open>new Uint8Array(n)\<close>: \<open>n\<close> zero bytes; \<^verbatim>\<open>NaN\<close> converts to the length 0, and a length
  that is negative or beyond \<open>2 ^ 53 - 1\<close> throws.
\<close>

definition new_Uint8Array :: "jsnum \<Rightarrow> error + byte list" where
  "new_Uint8Array n =
     (case n of
        NaN \<Rightarrow> Inr []
      | Fin i \<Rightarrow>
          if i < 0 \<or> 2 ^ 53 - 1 < i then Inl InvalidTypedArrayLength
          else Inr (replicate (nat i) 0)
      | _ \<Rightarrow> Inl InvalidTypedArrayLength)"

text \<open>
  \<^verbatim>\<open>file.read(content)\<close>, called once: the bytes at the cursor overwrite the front of the
  buffer, as many as the buffer holds, the file still has and the runtime delivers; the
  rest of the buffer is left as it was. The count that \<^verbatim>\<open>read\<close> returns is dropped by the
  handler.
\<close>

definition file_read :: "runtime \<Rightarrow> byte list \<Rightarrow> nat \<Rightarrow> byte list \<Rightarrow> byte list" where
  "file_read rt bytes pos buf =
     (let n = min (read_limit rt) (min (length buf) (length bytes - pos))
      in take n (drop pos bytes) @ drop n buf)"

text \<open>The branch of the handler for a request with a Range header (lines 209 to 245).\<close>

definition ranged ::
  "runtime \<Rightarrow> string \<Rightarrow> byte list \<Rightarrow> string \<Rightarrow> (error + response) \<times> fs_event list" where
  "ranged rt songPath bytes hdr =
     (let songSize = int (length bytes);
          (start, end') = parseRange hdr songSize;
          len = num_add (num_sub end' start) (Fin 1);
          hs = [(''Content-Range'',
                  ''bytes '' @ num_toString (large_toString rt) start @ ''-''
                    @ num_toString (large_toString rt) end' @ ''/''
                    @ num_toString (large_toString rt) (round_double songSize)),
                (''Accept-Ranges'', ''bytes''),
                (''Content-Length'', num_toString (large_toString rt) len)];
          seek = seek_mode_of start end' songSize;
          tr = [Open songPath, Seek start seek]
      in case Deno_seek rt (length bytes) 0 start seek of
           Inl e \<Rightarrow> (Inl e, tr)
         | Inr pos \<Rightarrow>
             (case new_Uint8Array len of
                Inl e \<Rightarrow> (Inl e, tr)
              | Inr content \<Rightarrow>
                  (Inr \<lparr>status = Some 206, headers = hs, rtype = Some ''audio/mpeg'',
                        body = Some (Bytes (file_read rt bytes pos content))\<rparr>,
                   tr @ [Read (length content), Close])))"

text \<open>
  The handler: the name of the song, the value of the Range header if there is one
  (\<^verbatim>\<open>!range\<close> holds for no header and for an empty one). It returns the response or the
  error thrown, and the file operations it made, in order. \<open>full\<close> is the branch without
  a range (lines 204 to 207).
\<close>

definition full ::
  "runtime \<Rightarrow> string \<Rightarrow> byte list \<Rightarrow> (error + response) \<times> fs_event list" where
  "full rt songName bytes =
     (Inr \<lparr>status = None,
           headers = [(''Content-Length'',
                        num_toString (large_toString rt) (round_double (int (length bytes)))),
                      (''Content-Type'', ''audio/mpeg'')],
           rtype = None, body = Some (Bytes bytes)\<rparr>,
      [Exists songName, Stat songName, ReadFile songName])"

definition songs ::
  "runtime \<Rightarrow> string \<Rightarrow> string option \<Rightarrow> (error + response) \<times> fs_event list" where
  "songs rt songName hdr =
     (case files rt songName of
        Some bytes \<Rightarrow>
          (case hdr of
             None \<Rightarrow> full rt songName bytes
           | Some h \<Rightarrow>
               if h = [] then full rt songName bytes
               else (let (r, tr) = ranged rt songName bytes h
                     in (r, [Exists songName, Stat songName] @ tr)))
      | None \<Rightarrow>
          (Inr \<lparr>status = Some 404, headers = [], rtype = None,
                body = Some (Text ''Song not found'')\<rparr>,
           [Exists songName]))"

section \<open>The handler of \<^verbatim>\<open>POST /cache-request\<close>\<close>

text \<open>
  The schema \<^verbatim>\<open>z.object({method: z.enum(["GET", "POST"]), url: z.string().url()})\<close>. An
  issue carries the path of the value it is about. Whether a string is a URL is decided by
  the URL parser of the runtime, the parameter \<open>is_url\<close>.
\<close>

datatype zod_issue =
    InvalidType "string list"
  | InvalidEnumValue "string list"
  | InvalidString "string list"

definition parse_method :: "json option \<Rightarrow> zod_issue list + string" where
  "parse_method v =
     (case v of
        Some (JStr s) \<Rightarrow>
          if s = ''GET'' \<or> s = ''POST'' then Inr s else Inl [InvalidEnumValue [''method'']]
      | _ \<Rightarrow> Inl [InvalidType [''method'']])"

definition parse_url :: "(string \<Rightarrow> bool) \<Rightarrow> json option \<Rightarrow> zod_issue list + string" where
  "parse_url is_url v =
     (case v of
        Some (JStr s) \<Rightarrow> if is_url s then Inr s else Inl [InvalidString [''url'']]
      | _ \<Rightarrow> Inl [InvalidType [''url'']])"

fun safeParse :: "(string \<Rightarrow> bool) \<Rightarrow> json \<Rightarrow> zod_issue list + string \<times> string" where
  "safeParse is_url (JObj kvs) =
     (case (parse_method (map_of kvs ''method''), parse_url is_url (map_of kvs ''url'')) of
        (Inr m, Inr u) \<Rightarrow> Inr (m, u)
      | (Inl i, Inr u) \<Rightarrow> Inl i
      | (Inr m, Inl j) \<Rightarrow> Inl j
      | (Inl i, Inl j) \<Rightarrow> Inl (i @ j))"
| "safeParse is_url v = Inl [InvalidType []]"

text \<open>
  The state the handler works on: the key-value store, the number of upstream requests
  sent so far, and the log of what was done to the store and sent upstream. \<open>fits\<close> tells
  which values the store accepts: \<^verbatim>\<open>kv.set\<close> throws for a value whose serialised form is
  larger than 64 KiB.
\<close>

datatype 'h event = KvGet 'h | KvSet 'h json | KvSetRefused 'h | Dispatch json

record 'h cache_state =
  kv :: "'h \<rightharpoonup> json"
  calls :: nat
  trace :: "'h event list"
  fits :: "json \<Rightarrow> bool"

text \<open>\<^verbatim>\<open>kv.get([key])\<close>: the \<open>value\<close> of the entry, \<^verbatim>\<open>null\<close> for a key that is not there.\<close>

definition kv_get :: "'h cache_state \<Rightarrow> 'h \<Rightarrow> json \<times> 'h cache_state" where
  "kv_get s k =
     ((case kv s k of None \<Rightarrow> JNull | Some v \<Rightarrow> v), s\<lparr>trace := trace s @ [KvGet k]\<rparr>)"

text \<open>\<^verbatim>\<open>kv.set([key], value)\<close>: the entry is written, or the value is refused.\<close>

definition kv_set :: "'h cache_state \<Rightarrow> 'h \<Rightarrow> json \<Rightarrow> error + 'h cache_state" where
  "kv_set s k v =
     (if fits s v then Inr (s\<lparr>kv := (kv s)(k \<mapsto> v), trace := trace s @ [KvSet k v]\<rparr>)
      else Inl ValueTooLarge)"

text \<open>
  \<^verbatim>\<open>axiod.request({...data, headers})\<close>: the upstream answers the \<open>n\<close>-th request for
  \<open>data\<close> with \<open>upstream n data\<close>, a payload or a failure; the headers are constants of the
  configuration.
\<close>

definition axiod_request ::
  "(nat \<Rightarrow> json \<Rightarrow> error + json) \<Rightarrow> 'h cache_state \<Rightarrow> json \<Rightarrow> (error + json) \<times> 'h cache_state" where
  "axiod_request upstream s data =
     (upstream (calls s) data, s\<lparr>calls := Suc (calls s), trace := trace s @ [Dispatch data]\<rparr>)"

text \<open>
  \<^verbatim>\<open>data.url\<close> in the log line throws when the body is \<^verbatim>\<open>null\<close>. The conversion of the
  \<open>url\<close> member to a string for the log line is taken to succeed, as it does for every
  value in which no object has a member named \<^verbatim>\<open>toString\<close>.
\<close>

definition read_url :: "json \<Rightarrow> error + unit" where
  "read_url data = (if data = JNull then Inl TypeError else Inr ())"

text \<open>
  The handler (lines 169 to 194). \<open>hash\<close> is the imported \<^verbatim>\<open>object_hash\<close> function. The
  result of \<^verbatim>\<open>safeParseAsync\<close> is not used. The handler returns the body of the response or
  the error thrown, and the state afterwards. When \<^verbatim>\<open>kv.set\<close> throws, the body has not been
  set and nothing has been stored.
\<close>

definition cache_request ::
  "(string \<Rightarrow> bool) \<Rightarrow> (json \<Rightarrow> 'h) \<Rightarrow> (nat \<Rightarrow> json \<Rightarrow> error + json) \<Rightarrow>
     'h cache_state \<Rightarrow> json \<Rightarrow> (error + json) \<times> 'h cache_state" where
  "cache_request is_url hash upstream s data =
     (let parsed = safeParse is_url data;
          requestHash = hash data;
          (cachedResponse, s1) = kv_get s requestHash
      in if truthy cachedResponse then
           (case read_url data of
              Inl e \<Rightarrow> (Inl e, s1)
            | Inr u \<Rightarrow> (Inr cachedResponse, s1))
         else
           (case read_url data of
              Inl e \<Rightarrow> (Inl e, s1)
            | Inr u \<Rightarrow>
                (case axiod_request upstream s1 data of
                   (Inl e, s2) \<Rightarrow> (Inl e, s2)
                 | (Inr newResponse, s2) \<Rightarrow>
                     (case kv_set s2 requestHash newResponse of
                        Inl e \<Rightarrow> (Inl e, s2\<lparr>trace := trace s2 @ [KvSetRefused requestHash]\<rparr>)
                      | Inr s3 \<Rightarrow> (Inr newResponse, s3)))))"

section \<open>The fingerprint of a request\<close>

text \<open>
  Modelled from the spec: the function \<^verbatim>\<open>hash\<close> that the handler imports from the
  \<^verbatim>\<open>object_hash\<close> module; its code is not part of the source files. The spec asks for a
  pure, total function on values made of scalars, sequences and mappings that puts the keys
  of every mapping in canonical (sorted) order before it hashes. \<open>canonical\<close> sorts the
  entries of every object by key; the digest applied to the canonical value is a parameter.
\<close>

fun canonical :: "json \<Rightarrow> json" where
  "canonical (JArr xs) = JArr (map canonical xs)"
| "canonical (JObj kvs) = JObj (sort_key fst (map (\<lambda>(k, v). (k, canonical v)) kvs))"
| "canonical v = v"

definition fingerprint :: "(json \<Rightarrow> 'h) \<Rightarrow> json \<Rightarrow> 'h" where
  "fingerprint digest v = digest (canonical v)"

section \<open>Sample inputs\<close>

text \<open>
  A runtime that converts an offset as a saturating cast does, on a file system that
  accepts the positions below \<open>2 ^ 44\<close>. Its notation for a number beyond \<open>2 ^ 53\<close>
  has all the digits, which are the shortest digits of the one such number that the
  samples print, 9007199255789568.
\<close>

fun saturating :: "jsnum \<Rightarrow> error + int" where
  "saturating NaN = Inr 0"
| "saturating PosInf = Inr (2 ^ 63 - 1)"
| "saturating NegInf = Inr (- (2 ^ 63))"
| "saturating (Fin n) = Inr (max (- (2 ^ 63)) (min n (2 ^ 63 - 1)))"

fun all_digits :: "int \<Rightarrow> string" where
  "all_digits i = int_toString i"

text \<open>A file of ten bytes in the songs directory, read by a runtime that delivers whole reads.\<close>

definition sample_runtime :: runtime where
  "sample_runtime =
     \<lparr>files = [''a.mp3'' \<mapsto> [1, 2, 3, 4, 5, 6, 7, 8, 9, 10]],
      read_limit = 1048576,
      max_offset = 17592186044415,
      convert_offset = saturating,
      large_toString = all_digits\<rparr>"

text \<open>The same file on a runtime whose reads deliver at most three bytes.\<close>

definition short_runtime :: runtime where
  "short_runtime = sample_runtime\<lparr>read_limit := 3\<rparr>"

text \<open>The same file on a file system that accepts every position below \<open>2 ^ 63\<close>.\<close>

definition wide_runtime :: runtime where
  "wide_runtime = sample_runtime\<lparr>max_offset := 9223372036854775807\<rparr>"

text \<open>A file of 5000000 bytes.\<close>

definition big_runtime :: runtime where
  "big_runtime =
     \<lparr>files = [''big.mp3'' \<mapsto> replicate 5000000 7],
      read_limit = 1048576,
      max_offset = 17592186044415,
      convert_offset = saturating,
      large_toString = all_digits\<rparr>"

definition any_url :: "string \<Rightarrow> bool" where
  "any_url u = True"

text \<open>Upstreams: the \<open>n\<close>-th answer is the number \<open>n\<close>, or \<open>n + 1\<close>, or a failure.\<close>

fun counting :: "nat \<Rightarrow> json \<Rightarrow> error + json" where
  "counting n d = Inr (JNum (int n))"

fun counting_from_one :: "nat \<Rightarrow> json \<Rightarrow> error + json" where
  "counting_from_one n d = Inr (JNum (int n + 1))"

fun failing :: "nat \<Rightarrow> json \<Rightarrow> error + json" where
  "failing n d = Inl AxiodError"

text \<open>An upstream whose answer is a string of 70000 characters.\<close>

fun oversized :: "nat \<Rightarrow> json \<Rightarrow> error + json" where
  "oversized n d = Inr (JStr (replicate 70000 (CHR ''x'')))"

text \<open>A store that refuses the strings of more than 65536 characters.\<close>

fun short_strings :: "json \<Rightarrow> bool" where
  "short_strings (JStr s) = (length s \<le> 65536)"
| "short_strings v = True"

definition empty_state :: "json cache_state" where
  "empty_state = \<lparr>kv = Map.empty, calls = 0, trace = [], fits = short_strings\<rparr>"

definition get_request :: json where
  "get_request = JObj [(''method'', JStr ''GET''), (''url'', JStr ''https://example.com/a'')]"

text \<open>A store that holds the empty string for the request, after one upstream request.\<close>

definition falsy_state :: "json cache_state" where
  "falsy_state =
     \<lparr>kv = [get_request \<mapsto> JStr []], calls = 1, trace = [], fits = short_strings\<rparr>"

text \<open>A store that holds a payload for the request.\<close>

definition truthy_state :: "json cache_state" where
  "truthy_state =
     \<lparr>kv = [get_request \<mapsto> JStr ''stored''], calls = 1, trace = [], fits = short_strings\<rparr>"

definition delete_request :: json where
  "delete_request = JObj [(''method'', JStr ''DELETE''), (''url'', JStr ''https://example.com/a'')]"

section \<open>Properties of the numbers\<close>

text \<open>
  Rounding leaves the integers up to \<open>2 ^ 53\<close> as they are and keeps a larger one at
  \<open>2 ^ 53\<close> or more.
\<close>


lemma bit_length_bounds:
  "0 < n \<Longrightarrow> 2 ^ (bit_length n - 1) \<le> n \<and> n < 2 ^ bit_length n"
proof (induction n rule: bit_length.induct)
  case (1 n)
  show ?case
  proof (cases "n div 2 = 0")
    case True
    with "1.prems" have "n = 1" by (simp add: div_eq_0_iff) 
    then show ?thesis by (simp add: bit_length.simps [of "Suc 0"] bit_length.simps [of 0])
  next
    case False
    with "1.IH" "1.prems" have ih: "2 ^ (bit_length (n div 2) - 1) \<le> n div 2" "n div 2 < 2 ^ bit_length (n div 2)"
      by auto
    have pos: "0 < bit_length (n div 2)"
      using False by (simp add: bit_length.simps [of "n div 2"])
    have b: "bit_length n = Suc (bit_length (n div 2))"
      using "1.prems" by (simp add: bit_length.simps [of n])
    have "2 ^ bit_length (n div 2) = (2::nat) * 2 ^ (bit_length (n div 2) - 1)"
      using pos by (cases "bit_length (n div 2)") auto
    then have lo: "2 ^ bit_length (n div 2) \<le> n"
      using ih(1) by linarith
    have hi: "n < 2 * 2 ^ bit_length (n div 2)"
      using ih(2) by linarith
    show ?thesis using lo hi b by simp
  qed
qed

lemma round_mag_exact: "m \<le> 2 ^ 53 \<Longrightarrow> round_mag m = m"
  by (simp add: round_mag_def)

lemma round_mag_big:
  assumes "2 ^ 53 < m"
  shows "2 ^ 53 \<le> round_mag m"
proof -
  let ?k = "bit_length m"
  let ?sh = "?k - 53"
  let ?q = "m div 2 ^ ?sh"
  have pos: "0 < m" using assms by (cases "m = 0") simp_all
  from bit_length_bounds [OF pos] have lo: "2 ^ (?k - 1) \<le> m" and hi: "m < 2 ^ ?k" by auto
  have "\<not> ?k \<le> 53"
  proof
    assume "?k \<le> 53"
    then have "(2::nat) ^ ?k \<le> 2 ^ 53" by (rule power_increasing) simp
    with hi assms show False by linarith
  qed
  then have k: "53 < ?k" by simp
  then have sh: "?k - 1 = 52 + ?sh" by simp
  have "(2::nat) ^ (?k - 1) = 2 ^ 52 * 2 ^ ?sh" by (simp only: sh power_add)
  with lo have "2 ^ 52 * 2 ^ ?sh \<le> m" by (simp only:)
  then have q: "2 ^ 52 \<le> ?q"
    by (simp add: less_eq_div_iff_mult_less_eq)
  have "(2::nat) ^ 1 \<le> 2 ^ ?sh"
    using k by (intro power_increasing) simp_all
  then have s1: "(2::nat) \<le> 2 ^ ?sh" by simp
  have "(2::nat) ^ 53 = 2 ^ 52 * 2" by simp
  also have "\<dots> \<le> ?q * 2 ^ ?sh" using q s1 by (rule mult_le_mono)
  finally have base: "2 ^ 53 \<le> ?q * 2 ^ ?sh" .
  have "?q * 2 ^ ?sh \<le> (?q + 1) * 2 ^ ?sh" by simp
  with base have "2 ^ 53 \<le> (?q + 1) * 2 ^ ?sh" by (rule le_trans)
  with base assms show ?thesis
    by (simp add: round_mag_def Let_def del: One_nat_def)
qed

lemma round_double_exact: "\<bar>i\<bar> \<le> 2 ^ 53 \<Longrightarrow> round_double i = Fin i"
proof -
  assume a: "\<bar>i\<bar> \<le> 2 ^ 53"
  then have "nat \<bar>i\<bar> \<le> 2 ^ 53" by (simp add: nat_le_iff)
  then have m: "round_mag (nat \<bar>i\<bar>) = nat \<bar>i\<bar>" by (rule round_mag_exact)
  have "(2::nat) ^ 53 < 2 ^ 1024" by (rule power_strict_increasing) simp_all
  with \<open>nat \<bar>i\<bar> \<le> 2 ^ 53\<close> have "\<not> 2 ^ 1024 \<le> nat \<bar>i\<bar>" by linarith
  with m show ?thesis by (simp add: round_double_def Let_def)
qed

lemma round_double_big:
  assumes "2 ^ 53 < i"
  shows "round_double i = PosInf \<or> (\<exists>z. round_double i = Fin z \<and> 2 ^ 53 \<le> z)"
proof -
  have "2 ^ 53 < nat \<bar>i\<bar>" using assms by (simp add: zless_nat_eq_int_zless)
  then have "2 ^ 53 \<le> round_mag (nat \<bar>i\<bar>)" by (rule round_mag_big)
  then have "2 ^ 53 \<le> int (round_mag (nat \<bar>i\<bar>))" by simp
  moreover have "\<not> i < 0" using assms by simp
  ultimately show ?thesis by (simp add: round_double_def Let_def)
qed

lemma round_double_small:
  assumes "i < - (2 ^ 53)"
  shows "round_double i = NegInf \<or> (\<exists>z. round_double i = Fin z \<and> z \<le> - (2 ^ 53))"
proof -
  have "2 ^ 53 < nat \<bar>i\<bar>" using assms by (simp add: zless_nat_eq_int_zless)
  then have "2 ^ 53 \<le> round_mag (nat \<bar>i\<bar>)" by (rule round_mag_big)
  then have "2 ^ 53 \<le> int (round_mag (nat \<bar>i\<bar>))" by simp
  moreover have "i < 0" using assms by simp
  ultimately show ?thesis by (simp add: round_double_def Let_def)
qed

lemma round_double_nonneg: "0 \<le> i \<Longrightarrow> round_double i = Fin z \<Longrightarrow> 0 \<le> z"
  by (simp add: round_double_def Let_def split: if_splits)

section \<open>Properties of the fingerprint\<close>

text \<open>Two lists with distinct keys and the same elements are sorted to the same list.\<close>

lemma sort_key_unique:
  assumes "distinct (map f xs)" and "distinct (map f ys)" and "set xs = set ys"
  shows "sort_key f xs = sort_key f ys"
proof -
  let ?xs = "sort_key f xs" and ?ys = "sort_key f ys"
  have inj: "inj_on f (set xs)" and dx: "distinct xs" and dy: "distinct ys"
    using assms(1,2) by (simp_all add: distinct_map)
  have d1: "distinct (map f ?xs)" and d2: "distinct (map f ?ys)"
    using inj dx dy assms(3) by (simp_all add: distinct_map)
  have s1: "sorted (map f ?xs)" and s2: "sorted (map f ?ys)"
    by (rule sorted_sort_key)+
  have se: "set (map f ?xs) = set (map f ?ys)"
    using assms(3) by simp
  have "map f ?xs = map f ?ys"
    using s1 d1 s2 d2 se by (rule sorted_distinct_set_unique)
  moreover have "inj_on f (set ?xs \<union> set ?ys)"
    using inj assms(3) by simp
  ultimately show ?thesis
    by (simp add: inj_on_map_eq_map)
qed

lemma canonical_entries_keys:
  "map fst (map (\<lambda>(k, v). (k, canonical v)) kvs) = map fst kvs"
  by (induction kvs) auto

text \<open>
  C1: two request objects with the same fields, the keys of each pairwise distinct and
  the same value under every key, have the same fingerprint, in whatever order their
  entries were inserted.
\<close>

theorem fingerprint_key_order:
  assumes "distinct (map fst kvs1)"
      and "distinct (map fst kvs2)"
      and "map_of kvs1 = map_of kvs2"
  shows "fingerprint digest (JObj kvs1) = fingerprint digest (JObj kvs2)"
proof -
  let ?c = "map (\<lambda>(k, v). (k, canonical v))"
  have d: "distinct (map fst (?c kvs1))" "distinct (map fst (?c kvs2))"
    using assms(1,2) by (simp_all only: canonical_entries_keys)
  have "map_of (?c kvs1) = map_of (?c kvs2)"
    using assms(3) by (simp add: map_of_map)
  then have "set (?c kvs1) = set (?c kvs2)"
    using d by (simp add: map_of_inject_set)
  then have "sort_key fst (?c kvs1) = sort_key fst (?c kvs2)"
    using d by (intro sort_key_unique)
  then show ?thesis
    by (simp add: fingerprint_def)
qed

theorem fingerprint_key_order_witness:
  "distinct (map fst [(''method'', JStr ''GET''), (''url'', JStr ''https://example.com/a'')]) \<and>
   distinct (map fst [(''url'', JStr ''https://example.com/a''), (''method'', JStr ''GET'')]) \<and>
   map_of [(''method'', JStr ''GET''), (''url'', JStr ''https://example.com/a'')]
     = map_of [(''url'', JStr ''https://example.com/a''), (''method'', JStr ''GET'')] \<and>
   [(''method'', JStr ''GET''), (''url'', JStr ''https://example.com/a'')]
     \<noteq> [(''url'', JStr ''https://example.com/a''), (''method'', JStr ''GET'')] \<and>
   fingerprint id (JObj [(''method'', JStr ''GET''), (''url'', JStr ''https://example.com/a'')])
     = fingerprint id (JObj [(''url'', JStr ''https://example.com/a''), (''method'', JStr ''GET'')])"
proof -
  have m: "map_of [(''method'', JStr ''GET''), (''url'', JStr ''https://example.com/a'')]
     = map_of [(''url'', JStr ''https://example.com/a''), (''method'', JStr ''GET'')]"
    by (auto simp: fun_eq_iff)
  show ?thesis
    using m fingerprint_key_order [where digest = id
        and ?kvs1.0 = "[(''method'', JStr ''GET''), (''url'', JStr ''https://example.com/a'')]"
        and ?kvs2.0 = "[(''url'', JStr ''https://example.com/a''), (''method'', JStr ''GET'')]"]
    by simp
qed

section \<open>Properties of the cache handler\<close>

text \<open>The handler on a body that is not \<^verbatim>\<open>null\<close>: a hit, and a miss.\<close>

lemma cache_request_hit:
  assumes "kv s (hash d) = Some v" and "truthy v" and "d \<noteq> JNull"
  shows "cache_request is_url hash upstream s d =
           (Inr v, s\<lparr>trace := trace s @ [KvGet (hash d)]\<rparr>)"
  using assms by (simp add: cache_request_def kv_get_def read_url_def Let_def)

lemma cache_request_miss:
  assumes "\<not> truthy (case kv s (hash d) of None \<Rightarrow> JNull | Some v \<Rightarrow> v)" and "d \<noteq> JNull"
  shows "cache_request is_url hash upstream s d =
     (case upstream (calls s) d of
        Inl e \<Rightarrow>
          (Inl e, s\<lparr>calls := Suc (calls s), trace := trace s @ [KvGet (hash d), Dispatch d]\<rparr>)
      | Inr p \<Rightarrow>
          if fits s p then
            (Inr p, s\<lparr>kv := (kv s)(hash d \<mapsto> p), calls := Suc (calls s),
                       trace := trace s @ [KvGet (hash d), Dispatch d, KvSet (hash d) p]\<rparr>)
          else
            (Inl ValueTooLarge,
             s\<lparr>calls := Suc (calls s),
               trace := trace s @ [KvGet (hash d), Dispatch d, KvSetRefused (hash d)]\<rparr>))"
  using assms
  by (simp add: cache_request_def kv_get_def kv_set_def axiod_request_def read_url_def Let_def
      split: sum.splits)

lemmas cache_defs =
  cache_request_def kv_get_def kv_set_def axiod_request_def read_url_def Let_def
  empty_state_def get_request_def delete_request_def any_url_def falsy_state_def
  truthy_state_def

text \<open>
  C2: a body that fails the schema is to be answered with the list of the violated
  constraints, the store untouched. The handler drops the result of the validation: for the
  body \<^verbatim>\<open>{"method": "DELETE", "url": "https://example.com/a"}\<close> the schema reports the
  method, and the handler still reads the store, sends the request upstream, stores the
  payload and answers with it.
\<close>

theorem invalid_body_reaches_store:
  "safeParse any_url delete_request = Inl [InvalidEnumValue [''method'']] \<and>
   cache_request any_url id counting_from_one empty_state delete_request =
     (Inr (JNum 1),
      \<lparr>kv = [delete_request \<mapsto> JNum 1], calls = 1,
       trace = [KvGet delete_request, Dispatch delete_request, KvSet delete_request (JNum 1)],
       fits = short_strings\<rparr>)"
  by (simp add: cache_defs parse_method_def parse_url_def)

text \<open>
  C5, as the code has it: when a request misses the store, the upstream answers with a
  payload, that payload is truthy and the store accepts it, the handler answers with it
  and stores it, and the next call with the same body answers with the same payload from
  the store: the only operation of that call is one read of the store, so the upstream is
  not asked again and the entry is not changed, whatever the upstream would answer the
  second time.
\<close>

theorem stored_payload_served:
  assumes "\<not> truthy (case kv s (hash (JObj kvs)) of None \<Rightarrow> JNull | Some v \<Rightarrow> v)"
      and "upstream (calls s) (JObj kvs) = Inr p"
      and "truthy p"
      and "fits s p"
      and "cache_request is_url hash upstream s (JObj kvs) = (ra, sa)"
  shows "ra = Inr p \<and> calls sa = Suc (calls s) \<and> kv sa (hash (JObj kvs)) = Some p \<and>
         cache_request is_url hash upstream sa (JObj kvs) =
           (Inr p, sa\<lparr>trace := trace sa @ [KvGet (hash (JObj kvs))]\<rparr>)"
proof -
  let ?d = "JObj kvs"
  let ?sa = "s\<lparr>kv := (kv s)(hash ?d \<mapsto> p), calls := Suc (calls s),
                trace := trace s @ [KvGet (hash ?d), Dispatch ?d, KvSet (hash ?d) p]\<rparr>"
  have "cache_request is_url hash upstream s ?d = (Inr p, ?sa)"
    using cache_request_miss [where hash = hash and d = ?d and s = s and upstream = upstream
        and is_url = is_url] assms(1,2,4) by simp
  with assms(5) have r: "ra = Inr p" and sa: "sa = ?sa"
    by simp_all
  have k: "kv sa (hash ?d) = Some p" by (simp add: sa)
  have c: "calls sa = Suc (calls s)" by (simp add: sa)
  from cache_request_hit [where hash = hash and d = ?d and s = sa and upstream = upstream
      and is_url = is_url and v = p] assms(3) r k c
  show ?thesis by simp
qed

theorem stored_payload_served_witness:
  "\<not> truthy (case kv empty_state (id get_request) of None \<Rightarrow> JNull | Some v \<Rightarrow> v) \<and>
   counting_from_one (calls empty_state) get_request = Inr (JNum 1) \<and>
   counting_from_one (Suc (calls empty_state)) get_request = Inr (JNum 2) \<and>
   truthy (JNum 1) \<and>
   fits empty_state (JNum 1) \<and>
   fst (cache_request any_url id counting_from_one empty_state get_request) = Inr (JNum 1) \<and>
   fst (cache_request any_url id counting_from_one
          (snd (cache_request any_url id counting_from_one empty_state get_request)) get_request)
     = Inr (JNum 1)"
  using stored_payload_served [where hash = id and upstream = counting_from_one
      and s = empty_state and is_url = any_url and p = "JNum 1"
      and kvs = "[(''method'', JStr ''GET''), (''url'', JStr ''https://example.com/a'')]"
      and ra = "fst (cache_request any_url id counting_from_one empty_state get_request)"
      and sa = "snd (cache_request any_url id counting_from_one empty_state get_request)"]
  by (simp add: get_request_def empty_state_def)

text \<open>
  C5, as the claim states it, fails for a payload that is not truthy: the upstream
  answers 0 to the first request and 1 to the second; the second call asks the upstream
  again and answers 1, not the payload of the first call.
\<close>

theorem falsy_payload_refetched_counterexample:
  "fst (cache_request any_url id counting empty_state get_request) = Inr (JNum 0) \<and>
   fst (cache_request any_url id counting
          (snd (cache_request any_url id counting empty_state get_request)) get_request)
     = Inr (JNum 1) \<and>
   calls (snd (cache_request any_url id counting
          (snd (cache_request any_url id counting empty_state get_request)) get_request)) = 2"
  by (simp add: cache_defs)

text \<open>
  A payload that the store refuses is not served from the store either: the handler ends
  with the error of \<^verbatim>\<open>kv.set\<close>, nothing is stored, and the next call asks the upstream
  again.
\<close>

lemma refused_payload_not_stored:
  "cache_request any_url id oversized empty_state get_request =
     (Inl ValueTooLarge,
      \<lparr>kv = Map.empty, calls = 1,
       trace = [KvGet get_request, Dispatch get_request, KvSetRefused get_request],
       fits = short_strings\<rparr>) \<and>
   calls (snd (cache_request any_url id oversized
          (snd (cache_request any_url id oversized empty_state get_request)) get_request)) = 2"
  by (simp add: cache_defs)

text \<open>
  C6: when a request misses the store and the upstream fails, the handler ends with
  that failure and the store is as it was before; the next call with the same body reads
  the store and asks the upstream again, and its outcome is what the upstream answers
  then, or the error of the store when it refuses that answer.
\<close>

theorem upstream_failure_not_stored:
  assumes "\<not> truthy (case kv s (hash (JObj kvs)) of None \<Rightarrow> JNull | Some v \<Rightarrow> v)"
      and "upstream (calls s) (JObj kvs) = Inl e"
      and "cache_request is_url hash upstream s (JObj kvs) = (ra, sa)"
      and "cache_request is_url hash upstream sa (JObj kvs) = (rb, sb)"
  shows "ra = Inl e \<and> kv sa = kv s \<and> calls sa = Suc (calls s) \<and>
         trace sa = trace s @ [KvGet (hash (JObj kvs)), Dispatch (JObj kvs)] \<and>
         rb = (case upstream (calls sa) (JObj kvs) of
                 Inl e' \<Rightarrow> Inl e'
               | Inr p \<Rightarrow> if fits sa p then Inr p else Inl ValueTooLarge) \<and>
         calls sb = Suc (calls sa) \<and>
         take 2 (drop (length (trace sa)) (trace sb)) = [KvGet (hash (JObj kvs)), Dispatch (JObj kvs)]"
proof -
  let ?d = "JObj kvs"
  let ?sa = "s\<lparr>calls := Suc (calls s), trace := trace s @ [KvGet (hash ?d), Dispatch ?d]\<rparr>"
  have "cache_request is_url hash upstream s ?d = (Inl e, ?sa)"
    using cache_request_miss [where hash = hash and d = ?d and s = s and upstream = upstream
        and is_url = is_url] assms(1,2) by simp
  with assms(3) have r: "ra = Inl e" and sa: "sa = ?sa"
    by simp_all
  have m: "\<not> truthy (case kv sa (hash ?d) of None \<Rightarrow> JNull | Some v \<Rightarrow> v)"
    using assms(1) by (simp add: sa)
  note second = cache_request_miss [where hash = hash and d = ?d and s = sa
      and upstream = upstream and is_url = is_url, OF m]
  have "rb = (case upstream (calls sa) ?d of
                 Inl e' \<Rightarrow> Inl e'
               | Inr p \<Rightarrow> if fits sa p then Inr p else Inl ValueTooLarge) \<and>
        calls sb = Suc (calls sa) \<and>
        take 2 (drop (length (trace sa)) (trace sb)) = [KvGet (hash ?d), Dispatch ?d]"
    using second assms(4) by (cases "upstream (calls sa) ?d") (auto split: if_splits)
  with r sa show ?thesis by simp
qed

theorem upstream_failure_not_stored_witness:
  "\<not> truthy (case kv empty_state (id get_request) of None \<Rightarrow> JNull | Some v \<Rightarrow> v) \<and>
   failing (calls empty_state) get_request = Inl AxiodError \<and>
   fst (cache_request any_url id failing empty_state get_request) = Inl AxiodError \<and>
   kv (snd (cache_request any_url id failing empty_state get_request)) = kv empty_state \<and>
   calls (snd (cache_request any_url id failing
            (snd (cache_request any_url id failing empty_state get_request)) get_request)) = 2"
  using upstream_failure_not_stored [where hash = id and upstream = failing
      and s = empty_state and is_url = any_url and e = AxiodError
      and kvs = "[(''method'', JStr ''GET''), (''url'', JStr ''https://example.com/a'')]"
      and ra = "fst (cache_request any_url id failing empty_state get_request)"
      and sa = "snd (cache_request any_url id failing empty_state get_request)"
      and rb = "fst (cache_request any_url id failing
            (snd (cache_request any_url id failing empty_state get_request)) get_request)"
      and sb = "snd (cache_request any_url id failing
            (snd (cache_request any_url id failing empty_state get_request)) get_request)"]
  by (simp add: cache_defs)



section \<open>Properties of the song handler\<close>

lemma split_first_no_sep: "split sep s = p # ps \<Longrightarrow> sep \<notin> set p"
  by (induction s arbitrary: p ps) (auto split: if_splits list.splits)

lemma range_parts_first: "range_parts h = (first, second) \<Longrightarrow> CHR ''-'' \<notin> set first"
  by (auto simp: range_parts_def split: list.splits dest: split_first_no_sep)

lemma digit_val_nonneg: "is_digit c \<Longrightarrow> 0 \<le> digit_val c"
  by (simp add: is_digit_def digit_val_def)

lemma foldl_digits_nonneg:
  "0 \<le> a \<Longrightarrow> \<forall>c\<in>set ds. is_digit c \<Longrightarrow> 0 \<le> foldl (\<lambda>a c. 10 * a + digit_val c) a ds"
  by (induction ds arbitrary: a) (auto simp: digit_val_nonneg)

lemma digits_val_nonneg: "0 \<le> digits_val (takeWhile is_digit u)"
  unfolding digits_val_def
  by (rule foldl_digits_nonneg) (auto dest: set_takeWhileD)

lemma round_double_not_NaN: "round_double i \<noteq> NaN"
  by (simp add: round_double_def Let_def)

text \<open>A part parses to \<^verbatim>\<open>NaN\<close> exactly when it has no leading digit.\<close>

lemma parseInt_NaN_iff: "parseInt s = NaN \<longleftrightarrow> snd (leading_digits s) = []"
  by (cases "leading_digits s") (simp add: parseInt_def round_double_not_NaN)

lemma leading_digits_digits: "\<forall>c\<in>set (snd (leading_digits s)). is_digit c"
  by (auto simp: leading_digits_def Let_def split: prod.splits dest: set_takeWhileD)

lemma leading_digits_unsigned:
  assumes "CHR ''-'' \<notin> set s"
  shows "fst (leading_digits s) = 1"
proof -
  have "CHR ''-'' \<notin> set (dropWhile is_space s)"
    using assms set_dropWhileD by fastforce
  then show ?thesis
    by (auto simp: leading_digits_def Let_def split: list.splits)
qed

text \<open>The text before the first dash holds no sign, so a numeric \<open>start\<close> is not negative.\<close>

lemma parseInt_nonneg:
  assumes "CHR ''-'' \<notin> set s" and "parseInt s = Fin n"
  shows "0 \<le> n"
proof -
  obtain ds where ld: "leading_digits s = (1, ds)"
    using leading_digits_unsigned [OF assms(1)] by (cases "leading_digits s") auto
  have "\<forall>c\<in>set ds. is_digit c"
    using leading_digits_digits [of s] ld by simp
  then have "0 \<le> digits_val ds"
    unfolding digits_val_def by (intro foldl_digits_nonneg) simp_all
  moreover have "round_double (digits_val ds) = Fin n"
    using assms(2) ld by (simp add: parseInt_def split: if_splits)
  ultimately show ?thesis
    by (rule round_double_nonneg)
qed

lemma parseRange_parts:
  assumes "range_parts h = (first, second)"
  shows "parseRange h n = (parseInt first, clamp_end (parseInt first) (initial_end second n))"
  using assms by (simp add: parseRange_def Let_def)

lemma parseRange_start_nonneg:
  assumes "parseRange h n = (Fin s, e)"
  shows "0 \<le> s"
proof -
  obtain first second where p: "range_parts h = (first, second)" by (cases "range_parts h")
  with assms have "parseInt first = Fin s" by (simp add: parseRange_parts)
  with range_parts_first [OF p] show ?thesis by (rule parseInt_nonneg)
qed

lemma songs_ranged:
  assumes "files rt songName = Some bytes" and "h \<noteq> []"
  shows "songs rt songName (Some h) =
           (fst (ranged rt songName bytes h),
            [Exists songName, Stat songName] @ snd (ranged rt songName bytes h))"
  using assms by (simp add: songs_def split: prod.splits)

lemma ranged_unfold:
  assumes "parseRange h (int (length bytes)) = (start, end')"
  shows "ranged rt songName bytes h =
     (case Deno_seek rt (length bytes) 0 start (seek_mode_of start end' (int (length bytes))) of
        Inl e \<Rightarrow>
          (Inl e, [Open songName, Seek start (seek_mode_of start end' (int (length bytes)))])
      | Inr pos \<Rightarrow>
          (case new_Uint8Array (num_add (num_sub end' start) (Fin 1)) of
             Inl e \<Rightarrow>
               (Inl e, [Open songName, Seek start (seek_mode_of start end' (int (length bytes)))])
           | Inr content \<Rightarrow>
               (Inr \<lparr>status = Some 206,
                     headers =
                       [(''Content-Range'',
                          ''bytes '' @ num_toString (large_toString rt) start @ ''-''
                            @ num_toString (large_toString rt) end' @ ''/''
                            @ num_toString (large_toString rt) (round_double (int (length bytes)))),
                        (''Accept-Ranges'', ''bytes''),
                        (''Content-Length'',
                          num_toString (large_toString rt) (num_add (num_sub end' start) (Fin 1)))],
                     rtype = Some ''audio/mpeg'',
                     body = Some (Bytes (file_read rt bytes pos content))\<rparr>,
                [Open songName, Seek start (seek_mode_of start end' (int (length bytes))),
                 Read (length content), Close])))"
  using assms by (simp add: ranged_def Let_def split: sum.splits)

lemma new_Uint8Array_zeros:
  "new_Uint8Array n = Inr content \<Longrightarrow> content = replicate (length content) 0"
  by (cases n) (auto simp: new_Uint8Array_def split: if_splits)

text \<open>A buffer is allocated for a rounded integer only when nothing was rounded.\<close>

lemma round_double_cases:
  obtains "\<bar>x\<bar> \<le> 2 ^ 53" and "round_double x = Fin x"
  | "round_double x = PosInf"
  | "round_double x = NegInf"
  | z where "round_double x = Fin z" and "2 ^ 53 \<le> \<bar>z\<bar>" and "2 ^ 53 < \<bar>x\<bar>" and "(z < 0) = (x < 0)"
proof -
  consider "\<bar>x\<bar> \<le> 2 ^ 53" | "2 ^ 53 < x" | "x < - (2 ^ 53)" by linarith
  then show ?thesis
  proof cases
    case 1
    then show ?thesis using round_double_exact that(1) by blast
  next
    case 2
    then have "\<not> x < 0" by simp
    with 2 round_double_big [OF 2] that(2,4) show ?thesis by fastforce
  next
    case 3
    then have "x < 0" by simp
    with 3 round_double_small [OF 3] that(3,4) show ?thesis by fastforce
  qed
qed

lemma alloc_rounded:
  assumes "new_Uint8Array (round_double x) = Inr content"
  shows "0 \<le> x \<and> x < 2 ^ 53 \<and> content = replicate (nat x) 0"
proof (cases x rule: round_double_cases)
  case 1
  then show ?thesis using assms by (auto simp: new_Uint8Array_def split: if_splits)
next
  case 2
  then show ?thesis using assms by (simp add: new_Uint8Array_def)
next
  case 3
  then show ?thesis using assms by (simp add: new_Uint8Array_def)
next
  case (4 z)
  then show ?thesis using assms by (auto simp: new_Uint8Array_def split: if_splits)
qed

lemma round_double_small_result:
  assumes "round_double x = Fin z" and "\<bar>z\<bar> < 2 ^ 53"
  shows "x = z"
  using assms by (cases x rule: round_double_cases) auto

lemma new_Uint8Array_length:
  assumes "new_Uint8Array (num_add (num_sub (Fin e) (Fin s)) (Fin 1)) = Inr content"
  shows "int (length content) = e - s + 1"
proof (cases "round_double (e - s)")
  case NaN
  then show ?thesis by (simp add: round_double_not_NaN)
next
  case (Fin z)
  with assms have a: "new_Uint8Array (round_double (z + 1)) = Inr content"
    by (simp add: num_sub_def)
  from alloc_rounded [OF a] have z: "0 \<le> z + 1" "z + 1 < 2 ^ 53"
    and c: "content = replicate (nat (z + 1)) 0" by auto
  from z have "\<bar>z\<bar> < 2 ^ 53" by (simp add: abs_less_iff)
  with Fin have "e - s = z" by (rule round_double_small_result)
  with c z show ?thesis by (metis length_replicate nat_0_le)
next
  case PosInf
  with assms show ?thesis by (simp add: num_sub_def new_Uint8Array_def)
next
  case NegInf
  with assms show ?thesis by (simp add: num_sub_def new_Uint8Array_def)
qed

lemma new_Uint8Array_exact:
  assumes "0 \<le> e - s + 1" and "e - s + 1 < 2 ^ 53"
  shows "new_Uint8Array (num_add (num_sub (Fin e) (Fin s)) (Fin 1))
           = Inr (replicate (nat (e - s + 1)) 0)"
proof -
  have "\<bar>e - s\<bar> \<le> 2 ^ 53" using assms by linarith
  then have d: "round_double (e - s) = Fin (e - s)" by (rule round_double_exact)
  have "\<bar>e - s + 1\<bar> \<le> 2 ^ 53" using assms by linarith
  then have "round_double (e - s + 1) = Fin (e - s + 1)" by (rule round_double_exact)
  with d assms show ?thesis by (simp add: num_sub_def new_Uint8Array_def)
qed

lemma file_read_zeros:
  "file_read rt bytes pos (replicate k 0) =
     take (min (read_limit rt) (min k (length bytes - pos))) (drop pos bytes)
       @ replicate (k - min (read_limit rt) (min k (length bytes - pos))) 0"
  by (simp add: file_read_def Let_def)

lemma file_read_length: "length (file_read rt bytes pos buf) = length buf"
  by (simp add: file_read_def Let_def)

lemmas range_defs =
  songs_def ranged_def parseRange_def range_parts_def parseInt_def leading_digits_def
  initial_end_def clamp_end_def maxChunk_def is_space_def is_digit_def digits_val_def
  digit_val_def seek_mode_of_def Deno_seek_def offset64_def new_Uint8Array_def file_read_def
  int_toString_def nat_toString.simps digit_char_def Let_def num_sub_def num_eq_def
  round_double_exact sample_runtime_def short_runtime_def big_runtime_def wide_runtime_def

text \<open>An odd integer just beyond \<open>2 ^ 53\<close> is not a double: it parses to its even neighbour.\<close>

lemma parseInt_rounds: "parseInt ''9007199254740993'' = Fin 9007199254740992"
  by (simp add: parseInt_def leading_digits_def is_space_def is_digit_def digits_val_def
      digit_val_def round_double_def round_mag_def bit_length.simps)

text \<open>
  C8: a song that is not in the songs directory is answered with status 404 and the
  plain text "Song not found", with or without a Range header; the only file operation is
  the test for existence: the file is not opened, sought or read.
\<close>

theorem missing_song_404:
  assumes "files rt songName = None"
  shows "songs rt songName hdr =
           (Inr \<lparr>status = Some 404, headers = [], rtype = None,
                 body = Some (Text ''Song not found'')\<rparr>,
            [Exists songName])"
  using assms by (simp add: songs_def)

theorem missing_song_404_witness:
  "files sample_runtime ''b.mp3'' = None \<and>
   songs sample_runtime ''b.mp3'' (Some ''bytes=2-5'') =
     (Inr \<lparr>status = Some 404, headers = [], rtype = None,
           body = Some (Text ''Song not found'')\<rparr>,
      [Exists ''b.mp3''])"
proof -
  have h: "files sample_runtime ''b.mp3'' = None" by (simp add: sample_runtime_def)
  show ?thesis using h missing_song_404 [OF h, of "Some ''bytes=2-5''"] by simp
qed

text \<open>
  Where the ranged read is right and where it is not, for a file and positions that the
  file system accepts. A range within the file that starts at the first byte or ends
  before the last one is answered with the bytes of the range, when the read delivers
  them all. A range that starts later and ends at the last byte is answered with zero
  bytes only.
\<close>

lemma ranged_read_exact:
  assumes "files rt songName = Some bytes"
      and "h \<noteq> []"
      and "parseRange h (int (length bytes)) = (Fin s, Fin e)"
      and "s \<le> e" and "e < int (length bytes)"
      and "s = 0 \<or> e \<noteq> int (length bytes) - 1"
      and "nat (e - s + 1) \<le> read_limit rt"
      and "length bytes \<le> max_offset rt" and "length bytes < 2 ^ 53"
  shows "\<exists>r tr. songs rt songName (Some h) = (Inr r, tr) \<and> status r = Some 206 \<and>
           body r = Some (Bytes (take (nat (e - s + 1)) (drop (nat s) bytes)))"
proof -
  have nn: "0 \<le> s" using assms(3) by (rule parseRange_start_nonneg)
  have sz: "int (length bytes) < 2 ^ 53" using assms(9) by simp
  then have "\<bar>int (length bytes)\<bar> \<le> 2 ^ 53" and "\<bar>int (length bytes) - 1\<bar> \<le> 2 ^ 53"
    by (simp_all add: abs_le_iff)
  then have last: "num_sub (round_double (int (length bytes))) (Fin 1) = Fin (int (length bytes) - 1)"
    by (simp add: num_sub_def round_double_exact)
  have s63: "s < 2 ^ 63" using assms(4,5) sz by simp
  have p: "Deno_seek rt (length bytes) 0 (Fin s) (seek_mode_of (Fin s) (Fin e) (int (length bytes)))
             = Inr (nat s)"
    using assms(4,5,6,8) nn last s63
    by (auto simp: Deno_seek_def offset64_def seek_mode_of_def num_eq_def Let_def)
  have b: "new_Uint8Array (num_add (num_sub (Fin e) (Fin s)) (Fin 1)) = Inr (replicate (nat (e - s + 1)) 0)"
    using assms(4,5) nn sz by (intro new_Uint8Array_exact) linarith+
  have k: "nat (e - s + 1) \<le> length bytes - nat s"
    using assms(4,5) nn by linarith
  have f: "file_read rt bytes (nat s) (replicate (nat (e - s + 1)) 0)
             = take (nat (e - s + 1)) (drop (nat s) bytes)"
    using k assms(7) by (simp add: file_read_def min_absorb2 min_absorb1)
  show ?thesis
    using songs_ranged [OF assms(1,2)] ranged_unfold [OF assms(3), of rt songName] p b f
    by simp
qed

lemma tail_range_zero_body:
  assumes "files rt songName = Some bytes"
      and "h \<noteq> []"
      and "parseRange h (int (length bytes)) = (Fin s, Fin e)"
      and "0 < s" and "s \<le> e" and "e = int (length bytes) - 1"
      and "2 * length bytes \<le> max_offset rt" and "max_offset rt < 2 ^ 53"
  shows "\<exists>r tr. songs rt songName (Some h) = (Inr r, tr) \<and> status r = Some 206 \<and>
           body r = Some (Bytes (replicate (nat (e - s + 1)) 0))"
proof -
  have sz: "int (length bytes) < 2 ^ 53" using assms(7,8) by simp
  then have "\<bar>int (length bytes)\<bar> \<le> 2 ^ 53" and "\<bar>int (length bytes) - 1\<bar> \<le> 2 ^ 53"
    by (simp_all add: abs_le_iff)
  then have last: "num_sub (round_double (int (length bytes))) (Fin 1) = Fin (int (length bytes) - 1)"
    by (simp add: num_sub_def round_double_exact)
  have m: "seek_mode_of (Fin s) (Fin e) (int (length bytes)) = SeekEnd"
    using assms(4,6) last by (simp add: seek_mode_of_def num_eq_def)
  have s63: "s < 2 ^ 63" using assms(5,6) sz by simp
  have p: "Deno_seek rt (length bytes) 0 (Fin s) SeekEnd = Inr (length bytes + nat s)"
    using assms(4,5,6,7,8) s63
    by (auto simp: Deno_seek_def offset64_def Let_def nat_add_distrib)
  have b: "new_Uint8Array (num_add (num_sub (Fin e) (Fin s)) (Fin 1)) = Inr (replicate (nat (e - s + 1)) 0)"
    using assms(4,5,6) sz by (intro new_Uint8Array_exact) linarith+
  have f: "file_read rt bytes (length bytes + nat s) (replicate (nat (e - s + 1)) 0)
             = replicate (nat (e - s + 1)) 0"
    by (simp add: file_read_def)
  show ?thesis
    using songs_ranged [OF assms(1,2)] ranged_unfold [OF assms(3), of rt songName] m p b f
    by simp
qed

text \<open>
  C3: a valid range of an existing file is to be answered with the bytes of the file at
  the offsets of the range. For a range that starts after the first byte and ends at the
  last one the handler seeks from the end of the file: on the file of ten bytes the range
  2-9 moves the cursor to offset 12, the read finds nothing there, and the body is eight
  zero bytes where the file has the bytes 3 to 10. Status and headers are as the claim
  has them.
\<close>

theorem tail_range_read_past_end:
  "files sample_runtime ''a.mp3'' = Some [1, 2, 3, 4, 5, 6, 7, 8, 9, 10] \<and>
   parseRange ''bytes=2-9'' 10 = (Fin 2, Fin 9) \<and>
   take 8 (drop 2 [1, 2, 3, 4, 5, 6, 7, 8, 9, 10 :: byte]) = [3, 4, 5, 6, 7, 8, 9, 10] \<and>
   songs sample_runtime ''a.mp3'' (Some ''bytes=2-9'') =
     (Inr \<lparr>status = Some 206,
           headers = [(''Content-Range'', ''bytes 2-9/10''), (''Accept-Ranges'', ''bytes''),
                      (''Content-Length'', ''8'')],
           rtype = Some ''audio/mpeg'',
           body = Some (Bytes (replicate 8 0))\<rparr>,
      [Exists ''a.mp3'', Stat ''a.mp3'', Open ''a.mp3'', Seek (Fin 2) SeekEnd, Read 8, Close])"
  by (simp add: range_defs)

text \<open>
  C4, as the code has it: the handler checks nothing about the parts of a Range header.
  For every non-empty header on an existing file: \<open>start\<close> is \<^verbatim>\<open>NaN\<close> exactly when the
  first part has no leading digit, and an end part without a leading digit gives the end
  \<^verbatim>\<open>NaN\<close>; every response has status 206 with a Content-Range and a Content-Length built
  from the unchecked values; every error is one that the runtime throws, at the seek or at
  the allocation of the buffer. Whenever both values are numbers, \<open>end - start + 1\<close> is a
  length (not negative, below \<open>2 ^ 53\<close>) and the runtime accepts the seek, the answer is
  the 206 response, whatever the size of the file.
\<close>

lemma clamp_end_NaN: "clamp_end start NaN = NaN"
  by (cases start) (simp_all add: clamp_end_def num_sub_def)

theorem range_not_validated:
  assumes "files rt songName = Some bytes"
      and "h \<noteq> []"
      and "range_parts h = (first, second)"
      and "parseRange h (int (length bytes)) = (start, end')"
      and "songs rt songName (Some h) = (res, tr)"
  shows "(start = NaN \<longleftrightarrow> snd (leading_digits first) = []) \<and>
         (\<forall>t. second = Some t \<and> t \<noteq> [] \<and> snd (leading_digits t) = [] \<longrightarrow> end' = NaN) \<and>
         (\<forall>r. res = Inr r \<longrightarrow>
            status r = Some 206 \<and>
            headers r =
              [(''Content-Range'',
                 ''bytes '' @ num_toString (large_toString rt) start @ ''-''
                   @ num_toString (large_toString rt) end' @ ''/''
                   @ num_toString (large_toString rt) (round_double (int (length bytes)))),
               (''Accept-Ranges'', ''bytes''),
               (''Content-Length'',
                 num_toString (large_toString rt) (num_add (num_sub end' start) (Fin 1)))]) \<and>
         (\<forall>e. res = Inl e \<longrightarrow>
            Deno_seek rt (length bytes) 0 start (seek_mode_of start end' (int (length bytes)))
              = Inl e \<or>
            e = InvalidTypedArrayLength \<and>
              new_Uint8Array (num_add (num_sub end' start) (Fin 1)) = Inl e) \<and>
         (\<forall>s e' pos.
            start = Fin s \<and> end' = Fin e' \<and> 0 \<le> e' - s + 1 \<and> e' - s + 1 < 2 ^ 53 \<and>
            Deno_seek rt (length bytes) 0 start (seek_mode_of start end' (int (length bytes)))
              = Inr pos \<longrightarrow>
            (\<exists>r. res = Inr r \<and> status r = Some 206))"
proof -
  let ?mode = "seek_mode_of start end' (int (length bytes))"
  let ?len = "num_add (num_sub end' start) (Fin 1)"
  have p: "start = parseInt first"
      and q: "end' = clamp_end (parseInt first) (initial_end second (int (length bytes)))"
    using assms(4) parseRange_parts [OF assms(3), of "int (length bytes)"] by auto
  have c1: "start = NaN \<longleftrightarrow> snd (leading_digits first) = []"
    using p by (simp add: parseInt_NaN_iff)
  have c2: "\<forall>t. second = Some t \<and> t \<noteq> [] \<and> snd (leading_digits t) = [] \<longrightarrow> end' = NaN"
    using q by (auto simp: initial_end_def clamp_end_NaN parseInt_NaN_iff [symmetric])
  from assms(5) songs_ranged [OF assms(1,2)]
  have res: "res = fst (ranged rt songName bytes h)"
    by simp
  note u = ranged_unfold [OF assms(4), of rt songName]
  have c3: "\<forall>r. res = Inr r \<longrightarrow>
            status r = Some 206 \<and>
            headers r =
              [(''Content-Range'',
                 ''bytes '' @ num_toString (large_toString rt) start @ ''-''
                   @ num_toString (large_toString rt) end' @ ''/''
                   @ num_toString (large_toString rt) (round_double (int (length bytes)))),
               (''Accept-Ranges'', ''bytes''),
               (''Content-Length'', num_toString (large_toString rt) ?len)]"
    using res u by (auto split: sum.splits)
  have c4: "\<forall>e. res = Inl e \<longrightarrow>
            Deno_seek rt (length bytes) 0 start ?mode = Inl e \<or>
            e = InvalidTypedArrayLength \<and> new_Uint8Array ?len = Inl e"
    using res u by (auto simp: new_Uint8Array_def split: sum.splits jsnum.splits if_splits)
  have c5: "\<forall>s e' pos.
            start = Fin s \<and> end' = Fin e' \<and> 0 \<le> e' - s + 1 \<and> e' - s + 1 < 2 ^ 53 \<and>
            Deno_seek rt (length bytes) 0 start ?mode = Inr pos \<longrightarrow>
            (\<exists>r. res = Inr r \<and> status r = Some 206)"
    using res u by (auto simp: new_Uint8Array_exact)
  show ?thesis using c1 c2 c3 c4 c5 by blast
qed

theorem range_not_validated_witness:
  "files sample_runtime ''a.mp3'' = Some [1, 2, 3, 4, 5, 6, 7, 8, 9, 10] \<and>
   ''bytes=x-5'' \<noteq> [] \<and>
   range_parts ''bytes=x-5'' = (''x'', Some ''5'') \<and>
   snd (leading_digits ''x'') = [] \<and>
   parseRange ''bytes=x-5'' (int (length [1, 2, 3, 4, 5, 6, 7, 8, 9, 10 :: byte])) = (NaN, Fin 5) \<and>
   songs sample_runtime ''a.mp3'' (Some ''bytes=x-5'') =
     (Inr \<lparr>status = Some 206,
           headers = [(''Content-Range'', ''bytes NaN-5/10''), (''Accept-Ranges'', ''bytes''),
                      (''Content-Length'', ''NaN'')],
           rtype = Some ''audio/mpeg'', body = Some (Bytes [])\<rparr>,
      [Exists ''a.mp3'', Stat ''a.mp3'', Open ''a.mp3'', Seek NaN SeekCurrent, Read 0, Close])"
  using range_not_validated [where rt = sample_runtime and songName = "''a.mp3''"
      and bytes = "[1, 2, 3, 4, 5, 6, 7, 8, 9, 10]" and h = "''bytes=x-5''"
      and first = "''x''" and second = "Some ''5''"
      and start = NaN and end' = "Fin 5"
      and res = "fst (songs sample_runtime ''a.mp3'' (Some ''bytes=x-5''))"
      and tr = "snd (songs sample_runtime ''a.mp3'' (Some ''bytes=x-5''))"]
  by (simp add: range_defs)


text \<open>
  C4, as the claim states it, fails: for the file of ten bytes and the header
  \<^verbatim>\<open>bytes=20-29\<close>, whose start lies beyond the size, no error is signalled and the
  status is 206, with ten zero bytes as the body.
\<close>

theorem start_beyond_size_counterexample:
  "files sample_runtime ''a.mp3'' = Some [1, 2, 3, 4, 5, 6, 7, 8, 9, 10] \<and>
   parseRange ''bytes=20-29'' 10 = (Fin 20, Fin 29) \<and>
   songs sample_runtime ''a.mp3'' (Some ''bytes=20-29'') =
     (Inr \<lparr>status = Some 206,
           headers = [(''Content-Range'', ''bytes 20-29/10''), (''Accept-Ranges'', ''bytes''),
                      (''Content-Length'', ''10'')],
           rtype = Some ''audio/mpeg'',
           body = Some (Bytes (replicate 10 0))\<rparr>,
      [Exists ''a.mp3'', Stat ''a.mp3'', Open ''a.mp3'', Seek (Fin 20) SeekCurrent, Read 10, Close])"
  by (simp add: range_defs)







text \<open>
  C10: whenever the handler answers a ranged request, the body is the buffer allocated
  for \<open>end - start + 1\<close> bytes (that many bytes when both are numbers): one read is made,
  the bytes it delivers are at the front, and the rest of the body is zero bytes; the
  status is 206 and nothing is thrown, however few bytes the read delivers.
\<close>

theorem ranged_body_length:
  assumes "files rt songName = Some bytes"
      and "h \<noteq> []"
      and "parseRange h (int (length bytes)) = (start, end')"
      and "songs rt songName (Some h) = (Inr r, tr)"
  shows "\<exists>content pos n.
      new_Uint8Array (num_add (num_sub end' start) (Fin 1)) = Inr content \<and>
      Deno_seek rt (length bytes) 0 start (seek_mode_of start end' (int (length bytes))) = Inr pos \<and>
      n = min (read_limit rt) (min (length content) (length bytes - pos)) \<and>
      status r = Some 206 \<and>
      body r = Some (Bytes (take n (drop pos bytes) @ replicate (length content - n) 0)) \<and>
      length (take n (drop pos bytes) @ replicate (length content - n) 0) = length content \<and>
      (\<forall>s e. start = Fin s \<and> end' = Fin e \<longrightarrow> int (length content) = e - s + 1) \<and>
      tr = [Exists songName, Stat songName, Open songName,
            Seek start (seek_mode_of start end' (int (length bytes))),
            Read (length content), Close]"
proof -
  let ?mode = "seek_mode_of start end' (int (length bytes))"
  let ?len = "num_add (num_sub end' start) (Fin 1)"
  from assms(4) songs_ranged [OF assms(1,2)]
  have rg: "ranged rt songName bytes h = (Inr r, drop 2 tr)" and tr2: "take 2 tr = [Exists songName, Stat songName]"
    by (auto simp: prod_eq_iff)
  from rg ranged_unfold [OF assms(3), of rt songName]
  obtain pos where pos: "Deno_seek rt (length bytes) 0 start ?mode = Inr pos"
    by (cases "Deno_seek rt (length bytes) 0 start ?mode") auto
  from rg ranged_unfold [OF assms(3), of rt songName] pos
  obtain content where content: "new_Uint8Array ?len = Inr content"
    by (cases "new_Uint8Array ?len") auto
  from rg ranged_unfold [OF assms(3), of rt songName] pos content
  have r: "r = \<lparr>status = Some 206,
                     headers =
                       [(''Content-Range'',
                          ''bytes '' @ num_toString (large_toString rt) start @ ''-''
                            @ num_toString (large_toString rt) end' @ ''/''
                            @ num_toString (large_toString rt) (round_double (int (length bytes)))),
                        (''Accept-Ranges'', ''bytes''),
                        (''Content-Length'', num_toString (large_toString rt) ?len)],
                     rtype = Some ''audio/mpeg'',
                     body = Some (Bytes (file_read rt bytes pos content))\<rparr>"
    and d: "drop 2 tr = [Open songName, Seek start ?mode, Read (length content), Close]"
    by simp_all
  have tr: "tr = [Exists songName, Stat songName, Open songName, Seek start ?mode,
                  Read (length content), Close]"
    using append_take_drop_id [of 2 tr] tr2 d by simp
  let ?n = "min (read_limit rt) (min (length content) (length bytes - pos))"
  have z: "content = replicate (length content) 0"
    using content by (rule new_Uint8Array_zeros)
  have b: "file_read rt bytes pos content = take ?n (drop pos bytes) @ replicate (length content - ?n) 0"
    using file_read_zeros [of rt bytes pos "length content"] z by simp
  have l: "length (take ?n (drop pos bytes) @ replicate (length content - ?n) 0) = length content"
    using file_read_length [of rt bytes pos content] b by simp
  have num: "\<forall>s e. start = Fin s \<and> end' = Fin e \<longrightarrow> int (length content) = e - s + 1"
    using content new_Uint8Array_length by blast
  show ?thesis
    using pos content r b l num tr by (intro exI [of _ content] exI [of _ pos] exI [of _ ?n]) simp
qed

theorem ranged_body_length_witness:
  "files short_runtime ''a.mp3'' = Some [1, 2, 3, 4, 5, 6, 7, 8, 9, 10] \<and>
   ''bytes=2-5'' \<noteq> [] \<and>
   parseRange ''bytes=2-5'' (int (length [1, 2, 3, 4, 5, 6, 7, 8, 9, 10 :: byte])) = (Fin 2, Fin 5) \<and>
   songs short_runtime ''a.mp3'' (Some ''bytes=2-5'') =
     (Inr \<lparr>status = Some 206,
           headers = [(''Content-Range'', ''bytes 2-5/10''), (''Accept-Ranges'', ''bytes''),
                      (''Content-Length'', ''4'')],
           rtype = Some ''audio/mpeg'',
           body = Some (Bytes [3, 4, 5, 0])\<rparr>,
      [Exists ''a.mp3'', Stat ''a.mp3'', Open ''a.mp3'', Seek (Fin 2) SeekCurrent, Read 4, Close])"
  using ranged_body_length [where rt = short_runtime and songName = "''a.mp3''"
      and bytes = "[1, 2, 3, 4, 5, 6, 7, 8, 9, 10]" and h = "''bytes=2-5''"
      and start = "Fin 2" and end' = "Fin 5"
      and r = "projr (fst (songs short_runtime ''a.mp3'' (Some ''bytes=2-5'')))"
      and tr = "snd (songs short_runtime ''a.mp3'' (Some ''bytes=2-5''))"]
  by (simp add: range_defs)

end
